theory Spec2Isabelle
  imports Main "HOL-Library.Word" "HOL-Library.AList"
begin

section \<open>The public-inbox archiver of Mailman: data\<close>

text \<open>
  The model follows \<^verbatim>\<open>src/mailman_public_inbox/__init__.py\<close>, class
  \<^verbatim>\<open>PublicInbox\<close>. Python's \<^verbatim>\<open>bytes\<close> is a list of 8-bit words, Python's
  \<^verbatim>\<open>str\<close> a list of Unicode code points (natural numbers), so that decoding the
  output of \<^verbatim>\<open>git config\<close> is a real step that can fail.
\<close>

type_synonym byte = "8 word"
type_synonym bytes = "byte list"
type_synonym str = "nat list"

text \<open>A Python string literal of ASCII characters, as code points.\<close>

definition str_of :: "string \<Rightarrow> str" where
  "str_of cs = map of_char cs"

text \<open>An ASCII bytes literal such as \<^verbatim>\<open>b'abc'\<close>.\<close>

definition bytes_of :: "string \<Rightarrow> bytes" where
  "bytes_of cs = map (\<lambda>c. of_nat (of_char c)) cs"

text \<open>The exceptions the code can meet.\<close>

datatype error = ValueError | UnicodeDecodeError | IndexError | KeyError

subsection \<open>Splitting\<close>

text \<open>
  \<^verbatim>\<open>xs.split(sep)\<close> for a separator of one element, on bytes and on strings alike:
  the pieces between the separators, empty pieces kept, so that the result has one
  piece more than \<open>xs\<close> has separators and is never empty.
\<close>

fun split :: "'a \<Rightarrow> 'a list \<Rightarrow> 'a list list" where
  "split sep [] = [[]]"
| "split sep (x # xs) =
     (if x = sep then [] # split sep xs
      else (case split sep xs of
              [] \<Rightarrow> [[x]]
            | p # ps \<Rightarrow> (x # p) # ps))"

text \<open>
  \<^verbatim>\<open>xs.split(sep, 1)\<close>: at most one split, at the first separator; without a
  separator the whole of \<open>xs\<close> is the only piece.
\<close>

fun split1 :: "'a \<Rightarrow> 'a list \<Rightarrow> 'a list list" where
  "split1 sep [] = [[]]"
| "split1 sep (x # xs) =
     (if x = sep then [[], xs]
      else (case split1 sep xs of
              [] \<Rightarrow> [[x]]
            | p # ps \<Rightarrow> (x # p) # ps))"

subsection \<open>Decoding UTF-8\<close>

text \<open>
  \<^verbatim>\<open>bytes.decode()\<close> is the strict UTF-8 decoder: it accepts the well-formed byte
  sequences of the Unicode standard (no overlong forms, no surrogates, nothing above
  U+10FFFF) and raises \<^verbatim>\<open>UnicodeDecodeError\<close> on anything else.
\<close>

definition cont :: "byte \<Rightarrow> bool" where
  "cont c = (0x80 \<le> c \<and> c \<le> 0xBF)"

definition low6 :: "byte \<Rightarrow> nat" where
  "low6 c = unat c - 0x80"

text \<open>
  One code point from the lead byte \<open>b\<close> and the bytes after it: the code point and how
  many continuation bytes it took.
\<close>

definition decode_one :: "byte \<Rightarrow> bytes \<Rightarrow> (nat \<times> nat) option" where
  "decode_one b bs =
     (if b < 0x80 then Some (unat b, 0)
      else if 0xC2 \<le> b \<and> b \<le> 0xDF then
        (case bs of
           c1 # _ \<Rightarrow>
             if cont c1 then Some ((unat b - 0xC0) * 64 + low6 c1, 1) else None
         | _ \<Rightarrow> None)
      else if 0xE0 \<le> b \<and> b \<le> 0xEF then
        (case bs of
           c1 # c2 # _ \<Rightarrow>
             if (if b = 0xE0 then 0xA0 else 0x80) \<le> c1
                \<and> c1 \<le> (if b = 0xED then 0x9F else 0xBF) \<and> cont c2
             then Some (((unat b - 0xE0) * 64 + low6 c1) * 64 + low6 c2, 2)
             else None
         | _ \<Rightarrow> None)
      else if 0xF0 \<le> b \<and> b \<le> 0xF4 then
        (case bs of
           c1 # c2 # c3 # _ \<Rightarrow>
             if (if b = 0xF0 then 0x90 else 0x80) \<le> c1
                \<and> c1 \<le> (if b = 0xF4 then 0x8F else 0xBF) \<and> cont c2 \<and> cont c3
             then Some ((((unat b - 0xF0) * 64 + low6 c1) * 64 + low6 c2) * 64 + low6 c3, 3)
             else None
         | _ \<Rightarrow> None)
      else None)"

fun decode :: "bytes \<Rightarrow> error + str" where
  "decode [] = Inr []"
| "decode (b # bs) =
     (case decode_one b bs of
        None \<Rightarrow> Inl UnicodeDecodeError
      | Some (cp, n) \<Rightarrow>
          (case decode (drop n bs) of
             Inl e \<Rightarrow> Inl e
           | Inr s \<Rightarrow> Inr (cp # s)))"

subsection \<open>Dictionaries\<close>

text \<open>
  A Python \<^verbatim>\<open>dict\<close> keeps its keys in insertion order, and
  \<^verbatim>\<open>_get_publicinbox_conf\<close> depends on that order: an association list, where
  storing under a key that is present replaces the value in place and storing under a
  new key appends.
\<close>

type_synonym ('k, 'v) dict = "('k \<times> 'v) list"

definition setitem :: "('k, 'v) dict \<Rightarrow> 'k \<Rightarrow> 'v \<Rightarrow> ('k, 'v) dict" where
  "setitem d k v = AList.update k v d"

text \<open>\<^verbatim>\<open>d.get(k)\<close>: \<open>None\<close> for a missing key.\<close>

definition get :: "('k, 'v) dict \<Rightarrow> 'k \<Rightarrow> 'v option" where
  "get d k = map_of d k"

text \<open>\<^verbatim>\<open>d[k]\<close>: raises \<^verbatim>\<open>KeyError\<close> for a missing key.\<close>

definition getitem :: "('k, 'v) dict \<Rightarrow> 'k \<Rightarrow> error + 'v" where
  "getitem d k = (case map_of d k of None \<Rightarrow> Inl KeyError | Some v \<Rightarrow> Inr v)"

definition dict_values :: "('k, 'v) dict \<Rightarrow> 'v list" where
  "dict_values d = map snd d"

type_synonym conf = "(str, str) dict"
type_synonym pi_config = "(str, conf) dict"

section \<open>Parsing the configuration\<close>

text \<open>
  The sequence unpacking \<^verbatim>\<open>a, b = xs\<close> raises \<^verbatim>\<open>ValueError\<close> unless
  \<open>xs\<close> has exactly two elements.
\<close>

definition unpack2 :: "'a list \<Rightarrow> error + ('a \<times> 'a)" where
  "unpack2 xs = (case xs of [a, b] \<Rightarrow> Inr (a, b) | _ \<Rightarrow> Inl ValueError)"

text \<open>
  The list comprehension \<^verbatim>\<open>[i.decode() for i in ...]\<close>: the pieces are decoded
  from left to right and the first failure is raised.
\<close>

fun decode_all :: "bytes list \<Rightarrow> error + str list" where
  "decode_all [] = Inr []"
| "decode_all (p # ps) =
     (case decode p of
        Inl e \<Rightarrow> Inl e
      | Inr s \<Rightarrow> (case decode_all ps of Inl e \<Rightarrow> Inl e | Inr ss \<Rightarrow> Inr (s # ss)))"

text \<open>
  Line 87, the body of the \<^verbatim>\<open>try\<close>:
  \<^verbatim>\<open>k, v = [i.decode() for i in cfg.split(b'\n', 1)]\<close>.
\<close>

definition key_value :: "bytes \<Rightarrow> error + (str \<times> str)" where
  "key_value cfg =
     (case decode_all (split1 10 cfg) of
        Inl e \<Rightarrow> Inl e
      | Inr ss \<Rightarrow> unpack2 ss)"

text \<open>\<^verbatim>\<open>parts[0]\<close>: raises \<^verbatim>\<open>IndexError\<close> on an empty list.\<close>

definition first :: "'a list \<Rightarrow> error + 'a" where
  "first xs = (case xs of [] \<Rightarrow> Inl IndexError | x # _ \<Rightarrow> Inr x)"

text \<open>
  Lines 95 to 97: \<^verbatim>\<open>if name not in pi_config: pi_config[name] = {}\<close>, then
  \<^verbatim>\<open>pi_config[name][conf] = v\<close>, which changes the inner dictionary in place.
\<close>

definition store :: "pi_config \<Rightarrow> str \<Rightarrow> str \<Rightarrow> str \<Rightarrow> error + pi_config" where
  "store pi name field v =
     (let pi1 = (if get pi name = None then setitem pi name [] else pi)
      in case getitem pi1 name of
           Inl e \<Rightarrow> Inl e
         | Inr c \<Rightarrow> Inr (setitem pi1 name (setitem c field v)))"

text \<open>
  Lines 86 to 97, one round of the loop over the records of the output. The
  \<^verbatim>\<open>except (ValueError, UnicodeDecodeError): continue\<close> catches what line 87
  raises; an exception of the lines after the \<^verbatim>\<open>try\<close> would leave the loop.
\<close>

definition parse_entry :: "pi_config \<Rightarrow> bytes \<Rightarrow> error + pi_config" where
  "parse_entry pi cfg =
     (case key_value cfg of
        Inl ValueError \<Rightarrow> Inr pi
      | Inl UnicodeDecodeError \<Rightarrow> Inr pi
      | Inl e \<Rightarrow> Inl e
      | Inr (k, v) \<Rightarrow>
          (let parts = split 46 k
           in case first parts of
                Inl e \<Rightarrow> Inl e
              | Inr p0 \<Rightarrow>
                  if p0 \<noteq> str_of ''publicinbox'' \<or> length parts \<noteq> 3 then Inr pi
                  else (case unpack2 (drop 1 parts) of
                          Inl e \<Rightarrow> Inl e
                        | Inr (name, field) \<Rightarrow> store pi name field v)))"

text \<open>The loop of line 85 over the records, from the dictionary \<open>pi\<close>.\<close>

fun parse_entries :: "pi_config \<Rightarrow> bytes list \<Rightarrow> error + pi_config" where
  "parse_entries pi [] = Inr pi"
| "parse_entries pi (cfg # cfgs) =
     (case parse_entry pi cfg of
        Inl e \<Rightarrow> Inl e
      | Inr pi' \<Rightarrow> parse_entries pi' cfgs)"

text \<open>Lines 85 to 97 on the standard output of \<^verbatim>\<open>git config -z -l\<close>.\<close>

definition parse_stdout :: "pi_config \<Rightarrow> bytes \<Rightarrow> error + pi_config" where
  "parse_stdout pi out = parse_entries pi (split 0 out)"

text \<open>Looking a field of a list's record up in the merged mapping.\<close>

definition lookup :: "pi_config \<Rightarrow> str \<Rightarrow> str \<Rightarrow> str option" where
  "lookup pi name field = (case get pi name of None \<Rightarrow> None | Some c \<Rightarrow> get c field)"


section \<open>The archiver and its surroundings\<close>

text \<open>
  \<^verbatim>\<open>ArchivePolicy\<close> of the host, and what the code reads of a mailing list and of a
  message. A message is taken to carry a \<^verbatim>\<open>Message-ID\<close> header, as the host sees
  to, so that \<^verbatim>\<open>msg['message-id']\<close> is a string.
\<close>

datatype archive_policy = Never | Private | Public

record mlist =
  posting_address :: str
  list_id :: str
  list_name :: str
  fqdn_listname :: str
  archive_policy :: archive_policy
  advertised :: bool

record msg =
  message_id :: str
  as_string :: str

text \<open>
  What \<^verbatim>\<open>subprocess.run(..., capture_output=True)\<close> returns. The code reads the
  standard output only of the configuration dump, which runs in binary mode; of the
  other processes it reads the exit status and logs the standard error.
\<close>

record proc =
  returncode :: int
  stdout :: bytes
  stderr :: bytes

text \<open>What \<^verbatim>\<open>_run_command\<close> hands to \<^verbatim>\<open>subprocess.run\<close>.\<close>

record call =
  args :: "str list"
  env :: "(str, str) dict"
  input :: "str option"

text \<open>The five places that call \<^verbatim>\<open>_run_command\<close>, to tell their processes apart.\<close>

datatype site = ConfigDump | Init | Deliver | Reload | RemoveSection

text \<open>The records written to the log, one constructor for each logging call.\<close>

datatype log_record =
    ErrorReadingConfig int bytes
  | DeliveryError str int bytes
  | Archived str "str option"
  | ReloadError bytes
  | AttemptingCreate mlist
  | DoesNotExistYet
  | PassedPreCheck
  | InitError str bytes
  | Initialised str
  | RemoveError str bytes
  | Removed str

text \<open>
  The attributes of the \<^verbatim>\<open>PublicInbox\<close> object. The six settings are strings read
  from the configuration file, so that \<open>auto_create\<close> and \<open>reload_command\<close> count as
  false exactly when they are empty; \<open>is_enabled\<close> is set by the host; \<open>pi_config\<close> is
  the cached merged mapping, the only attribute the methods change.
\<close>

record public_inbox =
  base_url :: str
  public_inbox_config :: str
  public_inbox_home :: str
  public_inbox_path :: str
  auto_create :: str
  reload_command :: str
  is_enabled :: bool
  pi_config :: pi_config

text \<open>
  What the code uses and does not define: running a process changes a world \<open>'w\<close> of
  which nothing is known and returns the finished process;
  \<^verbatim>\<open>os.environ\<close>, \<^verbatim>\<open>urllib.parse.urljoin\<close> and \<^verbatim>\<open>shlex.split\<close> are taken as
  they come. All of them are taken to return.
\<close>

record 'w platform =
  subprocess_run :: "call \<Rightarrow> 'w \<Rightarrow> proc \<times> 'w"
  os_environ :: "(str, str) dict"
  urljoin :: "str \<Rightarrow> str \<Rightarrow> str"
  shlex_split :: "str \<Rightarrow> str list"

text \<open>
  The state the methods run in: the object, the world, and two histories that only
  grow: the processes run so far, each with its call site, and the log.
\<close>

record 'w state =
  self :: public_inbox
  world :: 'w
  trace :: "(site \<times> call \<times> proc) list"
  logs :: "log_record list"

definition log :: "log_record \<Rightarrow> 'w state \<Rightarrow> 'w state" where
  "log r s = s\<lparr>logs := logs s @ [r]\<rparr>"

definition set_pi_config :: "pi_config \<Rightarrow> 'w state \<Rightarrow> 'w state" where
  "set_pi_config pi s = s\<lparr>self := (self s)\<lparr>pi_config := pi\<rparr>\<rparr>"

text \<open>\<^verbatim>\<open>d.update(e)\<close>: the items of \<open>e\<close> stored into \<open>d\<close> in order.\<close>

fun dict_update :: "('k, 'v) dict \<Rightarrow> ('k, 'v) dict \<Rightarrow> ('k, 'v) dict" where
  "dict_update d [] = d"
| "dict_update d ((k, v) # e) = dict_update (setitem d k v) e"

text \<open>\<^verbatim>\<open>os.path.join\<close> of two POSIX paths.\<close>

definition os_path_join :: "str \<Rightarrow> str \<Rightarrow> str" where
  "os_path_join a b =
     (case b of
        c # _ \<Rightarrow> if c = 47 then b
                 else if a = [] \<or> last a = 47 then a @ b else a @ 47 # b
      | [] \<Rightarrow> if a = [] \<or> last a = 47 then a @ b else a @ 47 # b)"

section \<open>The methods\<close>

text \<open>
  Lines 63 to 71 of \<^verbatim>\<open>_run_command\<close>: the environment of the process is the one
  the caller passes, if any, updated with \<^verbatim>\<open>os.environ\<close> and the three variables.
\<close>

definition command_call ::
  "'w platform \<Rightarrow> public_inbox \<Rightarrow> str list \<Rightarrow> (str, str) dict option \<Rightarrow> str option \<Rightarrow> call" where
  "command_call P slf as kw_env inp =
     (let e0 = os_environ P;
          e1 = setitem e0 (str_of ''PI_CONFIG'') (public_inbox_config slf);
          e2 = setitem e1 (str_of ''HOME'') (public_inbox_home slf);
          e3 = setitem e2 (str_of ''PATH'') (public_inbox_path slf)
      in \<lparr>args = as,
          env = (case kw_env of None \<Rightarrow> e3 | Some e \<Rightarrow> dict_update e e3),
          input = inp\<rparr>)"

text \<open>
  Line 73 of \<^verbatim>\<open>_run_command\<close>: the process runs and is returned; the trace keeps
  it under the site \<open>st\<close> of the call.
\<close>

definition run_command ::
  "'w platform \<Rightarrow> site \<Rightarrow> str list \<Rightarrow> (str, str) dict option \<Rightarrow> str option \<Rightarrow> 'w state
     \<Rightarrow> proc \<times> 'w state" where
  "run_command P st as kw_env inp s =
     (let c = command_call P (self s) as kw_env inp;
          r = subprocess_run P c (world s)
      in (fst r, s\<lparr>world := snd r, trace := trace s @ [(st, c, fst r)]\<rparr>))"

text \<open>Lines 75 to 97, \<^verbatim>\<open>_parse_publicinbox_config\<close>.\<close>

definition parse_publicinbox_config :: "'w platform \<Rightarrow> 'w state \<Rightarrow> error + 'w state" where
  "parse_publicinbox_config P s =
     (if pi_config (self s) \<noteq> [] then Inr s
      else
        (let r = run_command P ConfigDump
                   (map str_of [''git'', ''config'', ''-z'', ''-l'', ''--includes'', ''--file'']
                      @ [public_inbox_config (self s)]) None None s;
             p = fst r;
             s1 = (if returncode p \<noteq> 0
                   then log (ErrorReadingConfig (returncode p) (stderr p)) (snd r)
                   else snd r)
         in case parse_stdout (pi_config (self s1)) (stdout p) of
              Inl e \<Rightarrow> Inl e
            | Inr pi \<Rightarrow> Inr (set_pi_config pi s1)))"

text \<open>Lines 102 to 108, the loop over \<^verbatim>\<open>pi_config.values()\<close>.\<close>

fun find_conf :: "conf list \<Rightarrow> mlist \<Rightarrow> conf" where
  "find_conf [] m = []"
| "find_conf (c # cs) m =
     (if get c (str_of ''address'') = Some (posting_address m) then c
      else if get c (str_of ''listid'') = Some (list_id m) then c
      else find_conf cs m)"

text \<open>Lines 99 to 108, \<^verbatim>\<open>_get_publicinbox_conf\<close>.\<close>

definition get_publicinbox_conf ::
  "'w platform \<Rightarrow> mlist \<Rightarrow> 'w state \<Rightarrow> error + (conf \<times> 'w state)" where
  "get_publicinbox_conf P m s =
     (case parse_publicinbox_config P s of
        Inl e \<Rightarrow> Inl e
      | Inr s1 \<Rightarrow> Inr (find_conf (dict_values (pi_config (self s1))) m, s1))"

text \<open>Lines 110 to 115, \<^verbatim>\<open>list_url\<close>.\<close>

definition list_url ::
  "'w platform \<Rightarrow> mlist \<Rightarrow> 'w state \<Rightarrow> error + (str option \<times> 'w state)" where
  "list_url P m s =
     (case get_publicinbox_conf P m s of
        Inl e \<Rightarrow> Inl e
      | Inr (c, s1) \<Rightarrow> Inr (if c \<noteq> [] then get c (str_of ''url'') else None, s1))"

text \<open>
  Lines 121 to 124: \<^verbatim>\<open>msg_id[1:]\<close> if the identifier starts with \<^verbatim>\<open><\<close>, then
  \<^verbatim>\<open>msg_id[:-1]\<close> if what is left ends with \<^verbatim>\<open>>\<close>.
\<close>

definition strip_brackets :: "str \<Rightarrow> str" where
  "strip_brackets msg_id =
     (let m1 = (case msg_id of c # r \<Rightarrow> if c = 60 then r else msg_id | [] \<Rightarrow> msg_id)
      in if m1 \<noteq> [] \<and> last m1 = 62 then butlast m1 else m1)"

text \<open>Lines 117 to 127, \<^verbatim>\<open>permalink\<close>.\<close>

definition permalink ::
  "'w platform \<Rightarrow> mlist \<Rightarrow> msg \<Rightarrow> 'w state \<Rightarrow> error + (str option \<times> 'w state)" where
  "permalink P m mg s =
     (case list_url P m s of
        Inl e \<Rightarrow> Inl e
      | Inr (u, s1) \<Rightarrow>
          (let msg_id = strip_brackets (message_id mg)
           in case u of
                None \<Rightarrow> Inr (None, s1)
              | Some url \<Rightarrow>
                  if url \<noteq> [] then Inr (Some (urljoin P url (msg_id @ [47])), s1)
                  else Inr (None, s1)))"

text \<open>Lines 148 to 159, \<^verbatim>\<open>_reload_public_inbox\<close>.\<close>

definition reload_public_inbox :: "'w platform \<Rightarrow> 'w state \<Rightarrow> 'w state" where
  "reload_public_inbox P s =
     (let s1 = set_pi_config [] s
      in if reload_command (self s1) = [] then s1
         else
           (let r = run_command P Reload (shlex_split P (reload_command (self s1)))
                      None None s1
            in if returncode (fst r) \<noteq> 0 then log (ReloadError (stderr (fst r))) (snd r)
               else snd r))"

text \<open>Lines 161 to 191, \<^verbatim>\<open>_ensure_list_created\<close>.\<close>

definition ensure_list_created ::
  "'w platform \<Rightarrow> mlist \<Rightarrow> 'w state \<Rightarrow> error + (bool \<times> 'w state)" where
  "ensure_list_created P m s =
     (if auto_create (self s) = [] then Inr (False, s)
      else
        (case get_publicinbox_conf P m (log (AttemptingCreate m) s) of
           Inl e \<Rightarrow> Inl e
         | Inr (c, s1) \<Rightarrow>
             if c \<noteq> [] then Inr (True, s1)
             else
               (let s2 = log DoesNotExistYet s1
                in if archive_policy m \<noteq> Public \<or> \<not> advertised m then Inr (False, s2)
                   else
                     (let s3 = log PassedPreCheck s2;
                          r = run_command P Init
                                [str_of ''public-inbox-init'', str_of ''-V2'', list_name m,
                                 os_path_join (public_inbox_home (self s3)) (list_name m),
                                 urljoin P (base_url (self s3)) (list_name m @ [47]),
                                 fqdn_listname m] None None s3
                      in if returncode (fst r) \<noteq> 0
                         then Inr (False, log (InitError (list_name m) (stderr (fst r))) (snd r))
                         else Inr (True, reload_public_inbox P
                                           (log (Initialised (list_name m)) (snd r)))))))"

text \<open>Lines 129 to 146, \<^verbatim>\<open>archive_message\<close>.\<close>

definition archive_message ::
  "'w platform \<Rightarrow> mlist \<Rightarrow> msg \<Rightarrow> 'w state \<Rightarrow> error + (str option \<times> 'w state)" where
  "archive_message P m mg s =
     (case ensure_list_created P m s of
        Inl e \<Rightarrow> Inl e
      | Inr (created, s1) \<Rightarrow>
          if \<not> created then Inr (None, s1)
          else
            (case permalink P m mg s1 of
               Inl e \<Rightarrow> Inl e
             | Inr (url, s2) \<Rightarrow>
                 (let r = run_command P Deliver
                            [str_of ''public-inbox-mda'', str_of ''--no-precheck'']
                            (Some [(str_of ''ORIGINAL_RECIPIENT'', posting_address m)])
                            (Some (as_string mg)) s2
                  in if returncode (fst r) \<noteq> 0
                     then Inr (url, log (DeliveryError (message_id mg) (returncode (fst r))
                                           (stderr (fst r))) (snd r))
                     else Inr (url, log (Archived (message_id mg) url) (snd r)))))"

text \<open>Lines 193 to 214, \<^verbatim>\<open>list_deleting_handler\<close>.\<close>

definition list_deleting_handler ::
  "'w platform \<Rightarrow> mlist \<Rightarrow> 'w state \<Rightarrow> error + 'w state" where
  "list_deleting_handler P m s =
     (if \<not> is_enabled (self s) \<or> auto_create (self s) = [] then Inr s
      else
        (case get_publicinbox_conf P m s of
           Inl e \<Rightarrow> Inl e
         | Inr (c, s1) \<Rightarrow>
             if c = [] then Inr s1
             else
               (let r = run_command P RemoveSection
                          (map str_of [''git'', ''config'', ''--file'']
                             @ [public_inbox_config (self s1), str_of ''--remove-section'',
                                str_of ''publicinbox.'' @ list_name m]) None None s1
                in Inr (reload_public_inbox P
                          (if returncode (fst r) \<noteq> 0
                           then log (RemoveError (list_name m) (stderr (fst r))) (snd r)
                           else log (Removed (list_name m)) (snd r))))))"


section \<open>Notions of the statements\<close>

text \<open>\<^verbatim>\<open>sep.join(pieces)\<close>, the inverse of \<open>split\<close>.\<close>

fun join :: "'a \<Rightarrow> 'a list list \<Rightarrow> 'a list" where
  "join sep [] = []"
| "join sep [p] = p"
| "join sep (p # q # ps) = p @ sep # join sep (q # ps)"

text \<open>The dotted key \<^verbatim>\<open>publicinbox.<name>.<field>\<close>.\<close>

definition field_key :: "str \<Rightarrow> str \<Rightarrow> str" where
  "field_key name field = str_of ''publicinbox'' @ 46 # name @ 46 # field"

text \<open>
  A record of the output is well formed when it splits into a key half and a value
  half and both decode, that is, when line 87 raises nothing.
\<close>

definition well_formed :: "bytes \<Rightarrow> bool" where
  "well_formed cfg = (case key_value cfg of Inl _ \<Rightarrow> False | Inr _ \<Rightarrow> True)"

text \<open>
  The lookup as the specification words it in one place: the first record whose address
  matches, over the whole mapping, and only without one the first whose list id matches.
\<close>

definition find_address_first :: "conf list \<Rightarrow> mlist \<Rightarrow> conf" where
  "find_address_first recs m =
     (case List.find (\<lambda>c. get c (str_of ''address'') = Some (posting_address m)) recs of
        Some c \<Rightarrow> c
      | None \<Rightarrow>
          (case List.find (\<lambda>c. get c (str_of ''listid'') = Some (list_id m)) recs of
             Some c \<Rightarrow> c
           | None \<Rightarrow> []))"

text \<open>
  What an operation leaves behind, for reading results off: the value returned, the
  cached mapping, the sites of the processes run and the log; nothing for an exception.
\<close>

definition outcome ::
  "error + ('a \<times> 'w state) \<Rightarrow> ('a \<times> pi_config \<times> site list \<times> log_record list) option" where
  "outcome r =
     (case r of
        Inl e \<Rightarrow> None
      | Inr (a, s) \<Rightarrow> Some (a, pi_config (self s), map fst (trace s), logs s))"

section \<open>Sample inputs\<close>

text \<open>
  An output of \<^verbatim>\<open>git config -z -l\<close> with a field written twice, a key of another
  section and a record that is no UTF-8, and the records it splits into.
\<close>

definition sample_entries :: "bytes list" where
  "sample_entries =
     [bytes_of ''publicinbox.a.url'' @ 10 # bytes_of ''u1'',
      bytes_of ''core.bare'' @ 10 # bytes_of ''true'',
      [0xFF],
      bytes_of ''publicinbox.a.url'' @ 10 # bytes_of ''u2'',
      []]"

definition sample_stdout :: bytes where
  "sample_stdout =
     bytes_of ''publicinbox.a.url'' @ 10 # bytes_of ''u1'' @ 0 #
     bytes_of ''core.bare'' @ 10 # bytes_of ''true'' @ 0 #
     0xFF # 0 #
     bytes_of ''publicinbox.a.url'' @ 10 # bytes_of ''u2'' @ [0]"

text \<open>
  A platform whose processes answer from a script: the world is the list of the
  processes still to come, and a process beyond the script exits with 0 and no output.
  Its \<open>urljoin\<close> appends the reference to the base, which is what
  \<^verbatim>\<open>urllib.parse.urljoin\<close> gives for a base that ends in \<^verbatim>\<open>/\<close> and a reference
  of plain path segments, the only arguments the samples pass.
\<close>

definition scripted :: "proc list platform" where
  "scripted =
     \<lparr>subprocess_run =
        (\<lambda>c w. case w of
                  [] \<Rightarrow> (\<lparr>returncode = 0, stdout = [], stderr = []\<rparr>, [])
                | p # ps \<Rightarrow> (p, ps)),
      os_environ = [],
      urljoin = (\<lambda>base url. base @ url),
      shlex_split = split 32\<rparr>"

definition sample_mlist :: mlist where
  "sample_mlist =
     \<lparr>posting_address = str_of ''l@x'', list_id = str_of ''l.x'', list_name = str_of ''l'',
      fqdn_listname = str_of ''l@x'', archive_policy = Public, advertised = True\<rparr>"

definition sample_msg :: msg where
  "sample_msg = \<lparr>message_id = str_of ''<abc@d>'', as_string = str_of ''Hi''\<rparr>"

definition record_l :: conf where
  "record_l =
     [(str_of ''address'', str_of ''l@x''), (str_of ''listid'', str_of ''l.x''),
      (str_of ''url'', str_of ''http://x/list/'')]"

definition record_old :: conf where
  "record_old = [(str_of ''address'', str_of ''old@x''), (str_of ''listid'', str_of ''l.x'')]"

definition record_o :: conf where
  "record_o = [(str_of ''address'', str_of ''o@x'')]"

text \<open>
  A state with nothing run and nothing logged yet: \<open>ac\<close> is the auto-create setting,
  \<open>rc\<close> the reload command, \<open>pi\<close> the cached mapping, \<open>w\<close> the script.
\<close>

definition sample_state :: "str \<Rightarrow> str \<Rightarrow> pi_config \<Rightarrow> proc list \<Rightarrow> proc list state" where
  "sample_state ac rc pi w =
     \<lparr>self = \<lparr>base_url = str_of ''http://x/'', public_inbox_config = str_of ''/pi/config'',
              public_inbox_home = str_of ''/pi'', public_inbox_path = str_of ''/bin'',
              auto_create = ac, reload_command = rc, is_enabled = True,
              pi_config = pi\<rparr>,
      world = w, trace = [], logs = []\<rparr>"

text \<open>A process that exits with 1 and prints nothing.\<close>

definition failing :: proc where
  "failing = \<lparr>returncode = 1, stdout = [], stderr = []\<rparr>"

section \<open>Properties of the parser\<close>

lemma split_not_Nil: "split sep xs \<noteq> []"
  by (induction xs) (auto split: list.splits)

lemma join_split: "join sep (split sep xs) = xs"
proof (induction xs)
  case Nil
  show ?case by simp
next
  case (Cons x xs)
  obtain p ps where ps: "split sep xs = p # ps"
    using split_not_Nil [of sep xs] by (cases "split sep xs") auto
  show ?case
  proof (cases "x = sep")
    case True
    with Cons ps show ?thesis by simp
  next
    case False
    with Cons ps show ?thesis by (cases ps) auto
  qed
qed

lemma split_no_sep: "sep \<notin> set xs \<Longrightarrow> split sep xs = [xs]"
  by (induction xs) auto

lemma split_append_sep:
  "sep \<notin> set xs \<Longrightarrow> split sep (xs @ sep # ys) = xs # split sep ys"
  by (induction xs) auto

lemma split_three:
  "sep \<notin> set a \<Longrightarrow> sep \<notin> set b \<Longrightarrow> sep \<notin> set c \<Longrightarrow>
   split sep (a @ sep # b @ sep # c) = [a, b, c]"
  by (simp add: split_append_sep split_no_sep)

lemma split_three_eq: "split sep k = [a, b, c] \<Longrightarrow> k = a @ sep # b @ sep # c"
  using join_split [of sep k] by simp

lemma publicinbox_no_dot: "46 \<notin> set (str_of ''publicinbox'')"
  by (simp add: str_of_def)

lemma split_field_key:
  "46 \<notin> set name \<Longrightarrow> 46 \<notin> set field \<Longrightarrow>
   split 46 (field_key name field) = [str_of ''publicinbox'', name, field]"
  unfolding field_key_def by (rule split_three [OF publicinbox_no_dot])

lemma decode_error: "decode bs = Inl e \<Longrightarrow> e = UnicodeDecodeError"
  by (induction bs arbitrary: e rule: decode.induct)
     (auto split: option.splits sum.splits prod.splits)

lemma decode_all_error: "decode_all ps = Inl e \<Longrightarrow> e = UnicodeDecodeError"
  by (induction ps arbitrary: e) (auto split: sum.splits dest: decode_error)

lemma unpack2_error: "unpack2 xs = Inl e \<Longrightarrow> e = ValueError"
  by (auto simp: unpack2_def split: list.splits)

lemma key_value_error:
  "key_value cfg = Inl e \<Longrightarrow> e = ValueError \<or> e = UnicodeDecodeError"
  by (auto simp: key_value_def split: sum.splits dest: decode_all_error unpack2_error)

lemma store_Inr:
  "store pi name field v =
     Inr (setitem (if get pi name = None then setitem pi name [] else pi) name
            (setitem (case get pi name of None \<Rightarrow> [] | Some c \<Rightarrow> c) field v))"
  by (auto simp: store_def getitem_def get_def setitem_def update_conv' Let_def
           split: option.splits)

lemma lookup_store:
  "store pi name field v = Inr pi' \<Longrightarrow>
   lookup pi' n f = (if n = name \<and> f = field then Some v else lookup pi n f)"
  by (auto simp: store_Inr lookup_def get_def setitem_def update_conv'
           split: option.splits if_splits)


lemma first_split: "\<exists>p0. first (split sep k) = Inr p0"
  using split_not_Nil [of sep k] by (cases "split sep k") (auto simp: first_def)

lemma parse_entry_malformed: "key_value cfg = Inl e \<Longrightarrow> parse_entry pi cfg = Inr pi"
  by (auto simp: parse_entry_def dest: key_value_error)

lemma parse_entry_kept:
  "key_value cfg = Inr (k, v) \<Longrightarrow> split 46 k = [str_of ''publicinbox'', name, field] \<Longrightarrow>
   parse_entry pi cfg = store pi name field v"
  by (simp add: parse_entry_def first_def unpack2_def)

lemma parse_entry_dropped:
  "key_value cfg = Inr (k, v) \<Longrightarrow>
   length (split 46 k) \<noteq> 3 \<or> first (split 46 k) \<noteq> Inr (str_of ''publicinbox'') \<Longrightarrow>
   parse_entry pi cfg = Inr pi"
  using split_not_Nil [of 46 k]
  by (auto simp: parse_entry_def first_def Let_def split: list.splits)

lemma parse_entry_cases:
  "(parse_entry pi cfg = Inr pi \<and>
    (\<forall>k v name field. key_value cfg = Inr (k, v) \<longrightarrow>
       split 46 k \<noteq> [str_of ''publicinbox'', name, field])) \<or>
   (\<exists>k v name field. key_value cfg = Inr (k, v) \<and>
      split 46 k = [str_of ''publicinbox'', name, field] \<and>
      parse_entry pi cfg = store pi name field v)"
proof (cases "key_value cfg")
  case (Inl e)
  then show ?thesis by (simp add: parse_entry_malformed)
next
  case (Inr kv)
  obtain k v where kv: "kv = (k, v)" by (cases kv)
  show ?thesis
  proof (cases "length (split 46 k) = 3 \<and> first (split 46 k) = Inr (str_of ''publicinbox'')")
    case True
    then obtain a b c where "split 46 k = [a, b, c]"
      by (auto simp: numeral_3_eq_3 length_Suc_conv)
    with True have "split 46 k = [str_of ''publicinbox'', b, c]"
      by (simp add: first_def)
    with Inr kv show ?thesis by (auto simp: parse_entry_kept)
  next
    case False
    with Inr kv have "parse_entry pi cfg = Inr pi" by (auto simp: parse_entry_dropped)
    moreover from False have
      "\<forall>name field. split 46 k \<noteq> [str_of ''publicinbox'', name, field]"
      by (auto simp: first_def)
    ultimately show ?thesis using Inr kv by auto
  qed
qed

lemma parse_entry_total: "\<exists>pi'. parse_entry pi cfg = Inr pi'"
  using parse_entry_cases [of pi cfg] by (auto simp: store_Inr)

lemma parse_entries_total: "\<exists>pi'. parse_entries pi cfgs = Inr pi'"
proof (induction cfgs arbitrary: pi)
  case Nil
  show ?case by simp
next
  case (Cons c cfgs)
  obtain pi1 where "parse_entry pi c = Inr pi1" using parse_entry_total by blast
  with Cons show ?case by simp
qed

lemma parse_entries_append:
  "parse_entries pi (xs @ ys) =
     (case parse_entries pi xs of Inl e \<Rightarrow> Inl e | Inr pi1 \<Rightarrow> parse_entries pi1 ys)"
  by (induction xs arbitrary: pi) (auto split: sum.splits)

lemma parse_entries_filter:
  "parse_entries pi (filter well_formed cfgs) = parse_entries pi cfgs"
proof (induction cfgs arbitrary: pi)
  case Nil
  show ?case by simp
next
  case (Cons c cfgs)
  show ?case
  proof (cases "key_value c")
    case (Inl e)
    then show ?thesis using Cons by (simp add: well_formed_def parse_entry_malformed)
  next
    case (Inr kv)
    then show ?thesis using Cons by (simp add: well_formed_def split: sum.splits)
  qed
qed

lemma parse_entry_lookup:
  assumes "parse_entry pi cfg = Inr pi'"
  shows "(\<exists>k v. key_value cfg = Inr (k, v) \<and> split 46 k = [str_of ''publicinbox'', n, f] \<and>
            lookup pi' n f = Some v) \<or>
         ((\<forall>k v. key_value cfg = Inr (k, v) \<longrightarrow> split 46 k \<noteq> [str_of ''publicinbox'', n, f]) \<and>
            lookup pi' n f = lookup pi n f)"
proof -
  from parse_entry_cases [of pi cfg] show ?thesis
  proof
    assume "parse_entry pi cfg = Inr pi \<and>
      (\<forall>k v name field. key_value cfg = Inr (k, v) \<longrightarrow>
         split 46 k \<noteq> [str_of ''publicinbox'', name, field])"
    with assms show ?thesis by auto
  next
    assume "\<exists>k v name field. key_value cfg = Inr (k, v) \<and>
      split 46 k = [str_of ''publicinbox'', name, field] \<and>
      parse_entry pi cfg = store pi name field v"
    then obtain k v name field where kv: "key_value cfg = Inr (k, v)"
      and sp: "split 46 k = [str_of ''publicinbox'', name, field]"
      and st: "parse_entry pi cfg = store pi name field v" by blast
    from st assms have "store pi name field v = Inr pi'" by simp
    then have "lookup pi' n f = (if n = name \<and> f = field then Some v else lookup pi n f)"
      by (rule lookup_store)
    with kv sp show ?thesis by auto
  qed
qed

lemma parse_entries_keeps:
  "parse_entries pi cfgs = Inr pi' \<Longrightarrow>
   \<forall>c \<in> set cfgs. \<forall>k v. key_value c = Inr (k, v) \<longrightarrow>
      split 46 k \<noteq> [str_of ''publicinbox'', n, f] \<Longrightarrow>
   lookup pi' n f = lookup pi n f"
proof (induction cfgs arbitrary: pi)
  case Nil
  then show ?case by simp
next
  case (Cons c cfgs)
  obtain pi1 where p1: "parse_entry pi c = Inr pi1" using parse_entry_total by blast
  with Cons.prems have rest: "parse_entries pi1 cfgs = Inr pi'" by simp
  from Cons.prems(2) have "\<forall>c \<in> set cfgs. \<forall>k v. key_value c = Inr (k, v) \<longrightarrow>
      split 46 k \<noteq> [str_of ''publicinbox'', n, f]" by simp
  with Cons.IH rest have "lookup pi' n f = lookup pi1 n f" by blast
  moreover from parse_entry_lookup [OF p1, of n f] Cons.prems(2)
  have "lookup pi1 n f = lookup pi n f" by auto
  ultimately show ?case by simp
qed

lemma parse_entries_origin:
  "parse_entries pi cfgs = Inr pi' \<Longrightarrow> lookup pi' n f = Some v \<Longrightarrow>
   lookup pi n f \<noteq> Some v \<Longrightarrow>
   \<exists>pre c post k. cfgs = pre @ c # post \<and> key_value c = Inr (k, v) \<and>
     split 46 k = [str_of ''publicinbox'', n, f] \<and>
     (\<forall>c' \<in> set post. \<forall>k' v'. key_value c' = Inr (k', v') \<longrightarrow>
        split 46 k' \<noteq> [str_of ''publicinbox'', n, f])"
proof (induction cfgs arbitrary: pi' rule: rev_induct)
  case Nil
  then show ?case by simp
next
  case (snoc c cfgs)
  obtain pi1 where p1: "parse_entries pi cfgs = Inr pi1" using parse_entries_total by blast
  with snoc.prems(1) have pc: "parse_entry pi1 c = Inr pi'"
    by (simp add: parse_entries_append split: sum.splits)
  from parse_entry_lookup [OF pc, of n f] show ?case
  proof
    assume "\<exists>k v. key_value c = Inr (k, v) \<and> split 46 k = [str_of ''publicinbox'', n, f] \<and>
            lookup pi' n f = Some v"
    with snoc.prems(2) obtain k where "cfgs @ [c] = cfgs @ c # [] \<and>
      key_value c = Inr (k, v) \<and> split 46 k = [str_of ''publicinbox'', n, f] \<and>
      (\<forall>c' \<in> set []. \<forall>k' v'. key_value c' = Inr (k', v') \<longrightarrow>
        split 46 k' \<noteq> [str_of ''publicinbox'', n, f])" by auto
    then show ?thesis by blast
  next
    assume no: "(\<forall>k v. key_value c = Inr (k, v) \<longrightarrow> split 46 k \<noteq> [str_of ''publicinbox'', n, f]) \<and>
            lookup pi' n f = lookup pi1 n f"
    with snoc.prems(2) have "lookup pi1 n f = Some v" by simp
    with snoc.IH [OF p1 _ snoc.prems(3)] obtain pre c0 post k where
      d: "cfgs = pre @ c0 # post" "key_value c0 = Inr (k, v)"
         "split 46 k = [str_of ''publicinbox'', n, f]"
         "\<forall>c' \<in> set post. \<forall>k' v'. key_value c' = Inr (k', v') \<longrightarrow>
            split 46 k' \<noteq> [str_of ''publicinbox'', n, f]" by blast
    with no have "cfgs @ [c] = pre @ c0 # (post @ [c]) \<and>
      key_value c0 = Inr (k, v) \<and> split 46 k = [str_of ''publicinbox'', n, f] \<and>
      (\<forall>c' \<in> set (post @ [c]). \<forall>k' v'. key_value c' = Inr (k', v') \<longrightarrow>
        split 46 k' \<noteq> [str_of ''publicinbox'', n, f])" by auto
    then show ?thesis by blast
  qed
qed

lemma parse_entries_remove:
  "\<forall>pi1. parse_entry pi1 c = Inr pi1 \<Longrightarrow>
   parse_entries pi (pre @ c # post) = parse_entries pi (pre @ post)"
  by (simp add: parse_entries_append split: sum.splits)

lemma lookup_empty: "lookup [] n f = None"
  by (simp add: lookup_def get_def)
section \<open>Properties of the methods\<close>

lemma self_log [simp]: "self (log r s) = self s"
  and world_log [simp]: "world (log r s) = world s"
  and trace_log [simp]: "trace (log r s) = trace s"
  and logs_log [simp]: "logs (log r s) = logs s @ [r]"
  by (simp_all add: log_def)

lemma self_set_pi_config [simp]: "self (set_pi_config pi s) = (self s)\<lparr>pi_config := pi\<rparr>"
  and world_set_pi_config [simp]: "world (set_pi_config pi s) = world s"
  and trace_set_pi_config [simp]: "trace (set_pi_config pi s) = trace s"
  and logs_set_pi_config [simp]: "logs (set_pi_config pi s) = logs s"
  by (simp_all add: set_pi_config_def)

lemma self_run_command [simp]: "self (snd (run_command P st as e i s)) = self s"
  and logs_run_command [simp]: "logs (snd (run_command P st as e i s)) = logs s"
  by (simp_all add: run_command_def Let_def)

lemma trace_run_command [simp]:
  "trace (snd (run_command P st as e i s)) =
     trace s @ [(st, command_call P (self s) as e i, fst (run_command P st as e i s))]"
  by (simp add: run_command_def Let_def)

lemma parse_stdout_no_error [simp]: "parse_stdout pi out \<noteq> Inl e"
  using parse_entries_total [of pi "split 0 out"] by (auto simp: parse_stdout_def)

lemma parse_publicinbox_config_total: "\<exists>s'. parse_publicinbox_config P s = Inr s'"
  by (auto simp: parse_publicinbox_config_def Let_def split: sum.splits)

lemma parse_publicinbox_config_cached:
  "pi_config (self s) \<noteq> [] \<Longrightarrow> parse_publicinbox_config P s = Inr s"
  by (simp add: parse_publicinbox_config_def)

lemma parse_publicinbox_config_effect:
  assumes "parse_publicinbox_config P s = Inr s'"
  shows "self s' = (self s)\<lparr>pi_config := pi_config (self s')\<rparr> \<and>
         (\<exists>t. trace s' = trace s @ t \<and> (\<forall>e \<in> set t. fst e = ConfigDump))"
  using assms
  by (auto simp: parse_publicinbox_config_def Let_def split: sum.splits if_splits)

lemma find_conf_find:
  "find_conf recs m =
     (case List.find (\<lambda>c. get c (str_of ''address'') = Some (posting_address m) \<or>
                           get c (str_of ''listid'') = Some (list_id m)) recs of
        None \<Rightarrow> []
      | Some c \<Rightarrow> c)"
  by (induction recs) auto

lemma find_conf_shadow:
  "find_conf recs m =
     (case List.find (\<lambda>c. get c (str_of ''listid'') = Some (list_id m))
             (takeWhile (\<lambda>c. get c (str_of ''address'') \<noteq> Some (posting_address m)) recs) of
        Some c \<Rightarrow> c
      | None \<Rightarrow> find_address_first recs m)"
proof (induction recs)
  case Nil
  show ?case by (simp add: find_address_first_def)
next
  case (Cons c recs)
  then show ?case
    by (auto simp: find_address_first_def split: option.splits)
qed

lemma get_publicinbox_conf_total:
  "\<exists>c s'. get_publicinbox_conf P m s = Inr (c, s')"
  using parse_publicinbox_config_total [of P s]
  by (auto simp: get_publicinbox_conf_def)

lemma strip_brackets_bracketed: "strip_brackets (60 # mid @ [62]) = mid"
  by (simp add: strip_brackets_def)

lemma world_run_command:
  "world (snd (run_command P st as e i s)) =
     snd (subprocess_run P (command_call P (self s) as e i) (world s))"
  by (simp add: run_command_def Let_def)

lemma get_publicinbox_conf_effect:
  assumes "get_publicinbox_conf P m s = Inr (c, s')"
  shows "self s' = (self s)\<lparr>pi_config := pi_config (self s')\<rparr> \<and>
         (\<exists>t. trace s' = trace s @ t \<and> (\<forall>e \<in> set t. fst e = ConfigDump))"
  using assms parse_publicinbox_config_effect [of P s s']
  by (auto simp: get_publicinbox_conf_def split: sum.splits)

lemma get_publicinbox_conf_no_error [simp]: "get_publicinbox_conf P m s \<noteq> Inl e"
  using get_publicinbox_conf_total [of P m s] by auto

lemma list_url_total: "\<exists>u s'. list_url P m s = Inr (u, s')"
  using get_publicinbox_conf_total [of P m s] by (auto simp: list_url_def)

lemma permalink_total: "\<exists>u s'. permalink P m mg s = Inr (u, s')"
  using list_url_total [of P m s]
  by (auto simp: permalink_def Let_def split: option.splits)

lemma permalink_trace:
  assumes "permalink P m mg s = Inr (u, s')"
  shows "\<exists>t. trace s' = trace s @ t \<and> (\<forall>e \<in> set t. fst e = ConfigDump)"
proof -
  from assms obtain c where "get_publicinbox_conf P m s = Inr (c, s')"
    by (auto simp: permalink_def list_url_def Let_def split: sum.splits option.splits if_splits)
  then show ?thesis using get_publicinbox_conf_effect by blast
qed

lemma self_reload: "self (reload_public_inbox P s) = (self s)\<lparr>pi_config := []\<rparr>"
  by (simp add: reload_public_inbox_def Let_def)

lemma pi_config_reload [simp]: "pi_config (self (reload_public_inbox P s)) = []"
  by (simp add: self_reload)

lemma trace_reload:
  "trace (reload_public_inbox P s) =
     trace s @
     (if reload_command (self s) = [] then []
      else [(Reload,
             command_call P ((self s)\<lparr>pi_config := []\<rparr>)
               (shlex_split P (reload_command (self s))) None None,
             fst (run_command P Reload (shlex_split P (reload_command (self s))) None None
                    (set_pi_config [] s)))])"
  by (simp add: reload_public_inbox_def Let_def)

lemma ensure_list_created_total: "\<exists>created s'. ensure_list_created P m s = Inr (created, s')"
  using get_publicinbox_conf_total [of P m "log (AttemptingCreate m) s"]
  by (auto simp: ensure_list_created_def Let_def)

lemma ensure_list_created_cases:
  assumes "ensure_list_created P m s = Inr (created, s')"
  obtains
    (off) "auto_create (self s) = []" "\<not> created" "s' = s"
  | (found) cf where "get_publicinbox_conf P m (log (AttemptingCreate m) s) = Inr (cf, s')"
      "cf \<noteq> []" "created"
  | (refused) s1 where "get_publicinbox_conf P m (log (AttemptingCreate m) s) = Inr ([], s1)"
      "\<not> created" "s' = log DoesNotExistYet s1"
  | (failed) s1 as where "get_publicinbox_conf P m (log (AttemptingCreate m) s) = Inr ([], s1)"
      "returncode (fst (run_command P Init as None None
                          (log PassedPreCheck (log DoesNotExistYet s1)))) \<noteq> 0"
      "\<not> created"
      "s' = log (InitError (list_name m)
                   (stderr (fst (run_command P Init as None None
                                   (log PassedPreCheck (log DoesNotExistYet s1))))))
              (snd (run_command P Init as None None (log PassedPreCheck (log DoesNotExistYet s1))))"
  | (initialised) s1 as where
      "get_publicinbox_conf P m (log (AttemptingCreate m) s) = Inr ([], s1)"
      "returncode (fst (run_command P Init as None None
                          (log PassedPreCheck (log DoesNotExistYet s1)))) = 0"
      "created"
      "s' = reload_public_inbox P
              (log (Initialised (list_name m))
                 (snd (run_command P Init as None None
                         (log PassedPreCheck (log DoesNotExistYet s1)))))"
proof (cases "auto_create (self s) = []")
  case True
  with assms have "\<not> created" "s' = s" by (simp_all add: ensure_list_created_def)
  with True show ?thesis by (rule off)
next
  case on: False
  obtain cf s1 where g: "get_publicinbox_conf P m (log (AttemptingCreate m) s) = Inr (cf, s1)"
    using get_publicinbox_conf_total by blast
  show ?thesis
  proof (cases "cf = []")
    case False
    with assms on g have "created" "s' = s1" by (simp_all add: ensure_list_created_def)
    with g False show ?thesis by (auto intro: found)
  next
    case empty: True
    show ?thesis
    proof (cases "archive_policy m \<noteq> Public \<or> \<not> advertised m")
      case True
      with assms on g empty have "\<not> created" "s' = log DoesNotExistYet s1"
        by (auto simp: ensure_list_created_def Let_def)
      with g empty show ?thesis by (auto intro: refused)
    next
      case False
      define as where "as = [str_of ''public-inbox-init'', str_of ''-V2'', list_name m,
          os_path_join (public_inbox_home (self s1)) (list_name m),
          urljoin P (base_url (self s1)) (list_name m @ [47]), fqdn_listname m]"
      define r where "r = run_command P Init as None None
                            (log PassedPreCheck (log DoesNotExistYet s1))"
      from assms on g empty False have e:
        "(if returncode (fst r) \<noteq> 0
          then Inr (False, log (InitError (list_name m) (stderr (fst r))) (snd r))
          else Inr (True, reload_public_inbox P (log (Initialised (list_name m)) (snd r))))
         = (Inr (created, s') :: error + (bool \<times> 'a state))"
        by (simp add: ensure_list_created_def Let_def r_def as_def cong: if_cong)
      show ?thesis
      proof (cases "returncode (fst r) \<noteq> 0")
        case True
        with e have "\<not> created" "s' = log (InitError (list_name m) (stderr (fst r))) (snd r)"
          by simp_all
        with g empty True show ?thesis unfolding r_def by (auto intro: failed)
      next
        case False
        with e have "created"
          "s' = reload_public_inbox P (log (Initialised (list_name m)) (snd r))"
          by simp_all
        with g empty False show ?thesis unfolding r_def by (auto intro: initialised)
      qed
    qed
  qed
qed

lemma get_publicinbox_conf_reload_command:
  assumes "get_publicinbox_conf P m s = Inr (c, s')"
  shows "reload_command (self s') = reload_command (self s)"
proof -
  from get_publicinbox_conf_effect [OF assms]
  have "self s' = (self s)\<lparr>pi_config := pi_config (self s')\<rparr>" by simp
  then have "reload_command (self s') = reload_command ((self s)\<lparr>pi_config := pi_config (self s')\<rparr>)"
    by simp
  then show ?thesis by simp
qed

lemma parse_publicinbox_config_logs:
  assumes "parse_publicinbox_config P s = Inr s'"
  shows "logs s' = logs s \<or> (\<exists>rc err. logs s' = logs s @ [ErrorReadingConfig rc err])"
  using assms
  by (auto simp: parse_publicinbox_config_def Let_def split: sum.splits if_splits)

lemma get_publicinbox_conf_cached:
  "pi_config (self s) \<noteq> [] \<Longrightarrow>
   get_publicinbox_conf P m s = Inr (find_conf (dict_values (pi_config (self s))) m, s)"
  by (simp add: get_publicinbox_conf_def parse_publicinbox_config_cached)

section \<open>Properties of the samples\<close>

lemma cached_sample [simp]:
  "parse_publicinbox_config P (sample_state ac rc (r # rs) w) = Inr (sample_state ac rc (r # rs) w)"
  by (simp add: parse_publicinbox_config_def sample_state_def)

lemma pi_config_sample [simp]: "pi_config (self (sample_state ac rc pi w)) = pi"
  by (simp add: sample_state_def)

lemma address_l: "get record_l (str_of ''address'') = Some (posting_address sample_mlist)"
  by (simp add: record_l_def get_def sample_mlist_def str_of_def)

lemma address_old: "get record_old (str_of ''address'') \<noteq> Some (posting_address sample_mlist)"
  by (simp add: record_old_def get_def sample_mlist_def str_of_def)

lemma listid_old: "get record_old (str_of ''listid'') = Some (list_id sample_mlist)"
  by (simp add: record_old_def get_def sample_mlist_def str_of_def)

lemma split_sample_stdout: "split 0 sample_stdout = sample_entries"
  by (simp add: sample_stdout_def sample_entries_def bytes_of_def)

lemma key_value_sample_1:
  "key_value (bytes_of ''publicinbox.a.url'' @ 10 # bytes_of ''u1'') =
     Inr (field_key (str_of ''a'') (str_of ''url''), str_of ''u1'')"
  by (simp add: key_value_def bytes_of_def str_of_def field_key_def decode_one_def unpack2_def)

lemma key_value_sample_2:
  "key_value (bytes_of ''core.bare'' @ 10 # bytes_of ''true'') =
     Inr (str_of ''core.bare'', str_of ''true'')"
  by (simp add: key_value_def bytes_of_def str_of_def decode_one_def unpack2_def)

lemma key_value_sample_3: "key_value [0xFF] = Inl UnicodeDecodeError"
  by (simp add: key_value_def decode_one_def)

lemma key_value_sample_4:
  "key_value (bytes_of ''publicinbox.a.url'' @ 10 # bytes_of ''u2'') =
     Inr (field_key (str_of ''a'') (str_of ''url''), str_of ''u2'')"
  by (simp add: key_value_def bytes_of_def str_of_def field_key_def decode_one_def unpack2_def)

lemma key_value_sample_5: "key_value [] = Inl ValueError"
  by (simp add: key_value_def unpack2_def)

lemma parse_sample_stdout:
  "parse_stdout [] sample_stdout = Inr [(str_of ''a'', [(str_of ''url'', str_of ''u2'')])]"
  by (simp add: parse_stdout_def split_sample_stdout sample_entries_def
      parse_entry_def key_value_sample_1 key_value_sample_2 key_value_sample_3
      key_value_sample_4 key_value_sample_5
      field_key_def str_of_def first_def unpack2_def store_def get_def getitem_def setitem_def)

lemma filter_sample_entries:
  "filter well_formed sample_entries =
     [bytes_of ''publicinbox.a.url'' @ 10 # bytes_of ''u1'',
      bytes_of ''core.bare'' @ 10 # bytes_of ''true'',
      bytes_of ''publicinbox.a.url'' @ 10 # bytes_of ''u2'']"
  by (simp add: sample_entries_def well_formed_def key_value_sample_1 key_value_sample_2
      key_value_sample_3 key_value_sample_4 key_value_sample_5)

lemma list_url_sample:
  "list_url scripted sample_mlist (sample_state [] [] [(str_of ''l'', record_l)] []) =
     Inr (Some (str_of ''http://x/list/''), sample_state [] [] [(str_of ''l'', record_l)] [])"
  by (simp add: list_url_def get_publicinbox_conf_def dict_values_def address_l)
     (simp add: record_l_def get_def str_of_def)

lemma list_url_sample_none:
  "list_url scripted sample_mlist (sample_state [] [] [(str_of ''old'', record_old)] []) =
     Inr (None, sample_state [] [] [(str_of ''old'', record_old)] [])"
  by (simp add: list_url_def get_publicinbox_conf_def dict_values_def address_old listid_old)
     (simp add: record_old_def get_def str_of_def)

lemma address_o: "get record_o (str_of ''address'') \<noteq> Some (posting_address sample_mlist)"
  by (simp add: record_o_def get_def sample_mlist_def str_of_def)

lemma listid_o: "get record_o (str_of ''listid'') \<noteq> Some (list_id sample_mlist)"
  by (simp add: record_o_def get_def sample_mlist_def str_of_def)

lemma get_conf_o:
  "get_publicinbox_conf scripted sample_mlist (log r (sample_state ac rc [(str_of ''o'', record_o)] w))
     = Inr ([], log r (sample_state ac rc [(str_of ''o'', record_o)] w))"
  by (simp add: get_publicinbox_conf_def parse_publicinbox_config_cached dict_values_def
      address_o listid_o)

lemma ensure_failing:
  "outcome (ensure_list_created scripted sample_mlist
      (sample_state (str_of ''yes'') (str_of ''reload'') [(str_of ''o'', record_o)] [failing])) =
   Some (False, [(str_of ''o'', record_o)], [Init],
         [AttemptingCreate sample_mlist, DoesNotExistYet, PassedPreCheck,
          InitError (str_of ''l'') []])"
  by (simp add: ensure_list_created_def get_conf_o outcome_def Let_def)
     (simp add: sample_state_def sample_mlist_def str_of_def run_command_def scripted_def
        failing_def log_def Let_def)

lemma ensure_succeeding:
  "outcome (ensure_list_created scripted sample_mlist
      (sample_state (str_of ''yes'') (str_of ''reload'') [(str_of ''o'', record_o)] [])) =
   Some (True, [], [Init, Reload],
         [AttemptingCreate sample_mlist, DoesNotExistYet, PassedPreCheck,
          Initialised (str_of ''l'')])"
  by (simp add: ensure_list_created_def get_conf_o outcome_def Let_def)
     (simp add: sample_state_def sample_mlist_def str_of_def run_command_def scripted_def
        reload_public_inbox_def set_pi_config_def log_def Let_def)

lemma ensure_found:
  "ensure_list_created scripted sample_mlist
      (sample_state (str_of ''yes'') [] [(str_of ''l'', record_l)] w) =
   Inr (True, log (AttemptingCreate sample_mlist)
                (sample_state (str_of ''yes'') [] [(str_of ''l'', record_l)] w))"
  by (simp add: ensure_list_created_def get_publicinbox_conf_def parse_publicinbox_config_cached
        dict_values_def address_l)
     (simp add: sample_state_def str_of_def record_l_def)

lemma archive_failing:
  "outcome (archive_message scripted sample_mlist sample_msg
      (sample_state (str_of ''yes'') [] [(str_of ''l'', record_l)] [failing])) =
   Some (Some (str_of ''http://x/list/abc@d/''), [(str_of ''l'', record_l)], [Deliver],
         [AttemptingCreate sample_mlist, DeliveryError (str_of ''<abc@d>'') 1 []])"
  by (simp add: archive_message_def ensure_found permalink_def list_url_def
        get_publicinbox_conf_def parse_publicinbox_config_def dict_values_def address_l
        outcome_def Let_def)
     (simp add: sample_state_def sample_msg_def str_of_def record_l_def get_def strip_brackets_def
        run_command_def scripted_def failing_def log_def Let_def)

lemma parse_sample_state:
  "parse_publicinbox_config scripted
     (sample_state [] [] [] [\<lparr>returncode = 0, stdout = sample_stdout, stderr = []\<rparr>]) =
   Inr (sample_state [] [] [(str_of ''a'', [(str_of ''url'', str_of ''u2'')])] []
          \<lparr>trace := [(ConfigDump,
                       command_call scripted
                         (self (sample_state [] [] [] []))
                         (map str_of [''git'', ''config'', ''-z'', ''-l'', ''--includes'', ''--file'']
                            @ [str_of ''/pi/config'']) None None,
                       \<lparr>returncode = 0, stdout = sample_stdout, stderr = []\<rparr>)]\<rparr>)"
  by (simp add: parse_publicinbox_config_def Let_def)
     (simp add: sample_state_def run_command_def scripted_def Let_def parse_sample_stdout
        set_pi_config_def)

section \<open>The claims\<close>

text \<open>
  Claim C1. Let the output of \<^verbatim>\<open>git config\<close> split at the NUL bytes into records
  among which is one, \<open>cfg\<close>, that decodes to the key
  \<^verbatim>\<open>publicinbox.<name>.<field>\<close> and the value \<open>v\<close>, with no dot in the name or the
  field, and let no later record decode to the same name and field. Then parsing, from
  any mapping, raises nothing, and looking the field up in the record of the name gives
  \<open>v\<close> exactly.
\<close>

theorem parse_then_lookup_recovers_value:
  assumes rec: "split 0 out = pre @ cfg # post"
    and kv: "key_value cfg = Inr (field_key name field, v)"
    and nd: "46 \<notin> set name" "46 \<notin> set field"
    and later: "\<forall>c \<in> set post. \<forall>v'. key_value c \<noteq> Inr (field_key name field, v')"
  shows "\<exists>pi'. parse_stdout pi out = Inr pi' \<and> lookup pi' name field = Some v"
proof -
  obtain pi1 where p1: "parse_entries pi pre = Inr pi1"
    using parse_entries_total by blast
  from nd have sp: "split 46 (field_key name field) = [str_of ''publicinbox'', name, field]"
    by (rule split_field_key)
  obtain pi2 where p2: "parse_entry pi1 cfg = Inr pi2"
    using parse_entry_total by blast
  with kv sp have "store pi1 name field v = Inr pi2"
    by (simp add: parse_entry_kept)
  then have l2: "lookup pi2 name field = Some v"
    by (simp add: lookup_store)
  obtain pi3 where p3: "parse_entries pi2 post = Inr pi3"
    using parse_entries_total by blast
  have "\<forall>c \<in> set post. \<forall>k v'. key_value c = Inr (k, v') \<longrightarrow>
          split 46 k \<noteq> [str_of ''publicinbox'', name, field]"
  proof (intro ballI allI impI notI)
    fix c k v'
    assume c: "c \<in> set post" and k: "key_value c = Inr (k, v')"
      and s: "split 46 k = [str_of ''publicinbox'', name, field]"
    from s have "k = field_key name field"
      unfolding field_key_def by (rule split_three_eq)
    with later c k show False by blast
  qed
  with p3 have "lookup pi3 name field = lookup pi2 name field"
    by (rule parse_entries_keeps)
  with l2 p1 p2 p3 rec show ?thesis
    by (simp add: parse_stdout_def parse_entries_append)
qed

theorem parse_then_lookup_recovers_value_witness:
  "\<exists>pi'. parse_stdout [] sample_stdout = Inr pi' \<and>
         lookup pi' (str_of ''a'') (str_of ''url'') = Some (str_of ''u2'')"
proof -
  have 1: "split 0 sample_stdout =
      [bytes_of ''publicinbox.a.url'' @ 10 # bytes_of ''u1'',
       bytes_of ''core.bare'' @ 10 # bytes_of ''true'', [0xFF]]
      @ (bytes_of ''publicinbox.a.url'' @ 10 # bytes_of ''u2'') # [[]]"
    by (simp add: split_sample_stdout sample_entries_def)
  have 2: "46 \<notin> set (str_of ''a'')" "46 \<notin> set (str_of ''url'')"
    by (simp_all add: str_of_def)
  have 3: "\<forall>c \<in> set [[]]. \<forall>v'. key_value c \<noteq> Inr (field_key (str_of ''a'') (str_of ''url''), v')"
    by (simp add: key_value_sample_5)
  show ?thesis
    by (rule parse_then_lookup_recovers_value [OF 1 key_value_sample_4 2 3])
qed

text \<open>
  Claim C2. \<^verbatim>\<open>_get_publicinbox_conf\<close> parses if the cache is empty and then returns
  the first record, in the insertion order of the cached mapping, whose address equals
  the posting address of the list or whose list id equals its list id; it returns the
  empty dictionary when no record matches. Within one record the address is compared
  first, but either match returns that same record.
\<close>

theorem get_conf_first_match_per_record:
  "\<exists>s'. parse_publicinbox_config P s = Inr s' \<and>
     get_publicinbox_conf P m s =
       Inr (case List.find (\<lambda>c. get c (str_of ''address'') = Some (posting_address m) \<or>
                                 get c (str_of ''listid'') = Some (list_id m))
                   (dict_values (pi_config (self s'))) of
              None \<Rightarrow> []
            | Some c \<Rightarrow> c, s')"
  using parse_publicinbox_config_total [of P s]
  by (auto simp: get_publicinbox_conf_def find_conf_find)

theorem get_conf_first_match_per_record_witness:
  "get_publicinbox_conf scripted sample_mlist
     (sample_state [] [] [(str_of ''old'', record_old), (str_of ''l'', record_l)] []) =
   Inr (record_old, sample_state [] [] [(str_of ''old'', record_old), (str_of ''l'', record_l)] [])"
  using get_conf_first_match_per_record
    [of scripted "sample_state [] [] [(str_of ''old'', record_old), (str_of ''l'', record_l)] []"
        sample_mlist]
  by (simp add: dict_values_def listid_old)

text \<open>
  Claim C3, as amended. The lookup returns the first record whose address matches, unless
  a record before it matches on the list id: then the earliest such record is returned.
  Without any address match it is the first record whose list id matches, else the empty
  dictionary. As claimed (an address match anywhere wins over every list id match) the
  statement fails: an earlier record that matches only on the list id shadows a later
  one that matches on the address.
\<close>

theorem get_conf_listid_can_shadow_address:
  "\<exists>s'. parse_publicinbox_config P s = Inr s' \<and>
     get_publicinbox_conf P m s =
       Inr (case List.find (\<lambda>c. get c (str_of ''listid'') = Some (list_id m))
                   (takeWhile (\<lambda>c. get c (str_of ''address'') \<noteq> Some (posting_address m))
                      (dict_values (pi_config (self s')))) of
              Some c \<Rightarrow> c
            | None \<Rightarrow> find_address_first (dict_values (pi_config (self s'))) m, s')"
  using parse_publicinbox_config_total [of P s] find_conf_shadow
  by (auto simp: get_publicinbox_conf_def)

theorem get_conf_address_first_counterexample:
  "get_publicinbox_conf scripted sample_mlist
     (sample_state [] [] [(str_of ''old'', record_old), (str_of ''l'', record_l)] []) =
   Inr (record_old, sample_state [] [] [(str_of ''old'', record_old), (str_of ''l'', record_l)] []) \<and>
   get record_old (str_of ''address'') \<noteq> Some (posting_address sample_mlist) \<and>
   get record_l (str_of ''address'') = Some (posting_address sample_mlist) \<and>
   find_address_first [record_old, record_l] sample_mlist = record_l \<and>
   record_old \<noteq> record_l"
  by (simp add: get_publicinbox_conf_def dict_values_def listid_old address_old address_l
      find_address_first_def)
     (simp add: record_old_def record_l_def)

theorem get_conf_listid_can_shadow_address_witness:
  "get_publicinbox_conf scripted sample_mlist
     (sample_state [] [] [(str_of ''l'', record_l), (str_of ''old'', record_old)] []) =
   Inr (record_l, sample_state [] [] [(str_of ''l'', record_l), (str_of ''old'', record_old)] [])"
  using get_conf_listid_can_shadow_address
    [of scripted "sample_state [] [] [(str_of ''l'', record_l), (str_of ''old'', record_old)] []"
        sample_mlist]
  by (simp add: dict_values_def address_l find_address_first_def)

text \<open>
  Claim C4. Where \<^verbatim>\<open>list_url\<close> gives a URL that is present and not empty, the
  permalink is \<^verbatim>\<open>urljoin(url, id + "/")\<close> for the identifier without its
  brackets, and for an identifier \<^verbatim>\<open><mid>\<close> that is
  \<^verbatim>\<open>urljoin(url, mid + "/")\<close>: exactly one leading \<^verbatim>\<open><\<close> and one trailing
  \<^verbatim>\<open>>\<close> are taken off, whatever \<open>mid\<close> is. Where the URL is absent or empty, the
  permalink is \<open>None\<close> whatever the identifier.
\<close>

theorem permalink_strips_brackets_and_joins:
  assumes "list_url P m s = Inr (u, s')"
  shows "(\<forall>url. u = Some url \<and> url \<noteq> [] \<longrightarrow>
            permalink P m mg s =
              Inr (Some (urljoin P url (strip_brackets (message_id mg) @ [47])), s') \<and>
            (\<forall>mid. message_id mg = 60 # mid @ [62] \<longrightarrow>
               permalink P m mg s = Inr (Some (urljoin P url (mid @ [47])), s'))) \<and>
         (u = None \<or> u = Some [] \<longrightarrow> permalink P m mg s = Inr (None, s'))"
  using assms by (auto simp: permalink_def strip_brackets_bracketed)

theorem permalink_strips_brackets_and_joins_witness:
  "permalink scripted sample_mlist sample_msg (sample_state [] [] [(str_of ''l'', record_l)] []) =
     Inr (Some (str_of ''http://x/list/abc@d/''), sample_state [] [] [(str_of ''l'', record_l)] []) \<and>
   permalink scripted sample_mlist sample_msg (sample_state [] [] [(str_of ''old'', record_old)] []) =
     Inr (None, sample_state [] [] [(str_of ''old'', record_old)] [])"
proof -
  have m: "message_id sample_msg = 60 # str_of ''abc@d'' @ [62]"
    by (simp add: sample_msg_def str_of_def)
  have u: "str_of ''http://x/list/'' \<noteq> []" by (simp add: str_of_def)
  have j: "urljoin scripted (str_of ''http://x/list/'') (str_of ''abc@d'' @ [47]) =
             str_of ''http://x/list/abc@d/''"
    by (simp add: scripted_def str_of_def)
  from permalink_strips_brackets_and_joins [OF list_url_sample, of sample_msg] m u
  have "permalink scripted sample_mlist sample_msg (sample_state [] [] [(str_of ''l'', record_l)] []) =
     Inr (Some (urljoin scripted (str_of ''http://x/list/'') (str_of ''abc@d'' @ [47])),
          sample_state [] [] [(str_of ''l'', record_l)] [])"
    by blast
  moreover from permalink_strips_brackets_and_joins [OF list_url_sample_none, of sample_msg]
  have "permalink scripted sample_mlist sample_msg (sample_state [] [] [(str_of ''old'', record_old)] []) =
     Inr (None, sample_state [] [] [(str_of ''old'', record_old)] [])"
    by blast
  ultimately show ?thesis by (simp add: j)
qed

text \<open>
  Claim C5. After parsing from the empty mapping, every field of every record of the
  result was written by a record of the output whose key splits at the dots into exactly
  the three parts \<^verbatim>\<open>publicinbox\<close>, name and field, and it holds the value of the
  last such record (the last write wins). A record whose key has another number of
  parts or another first part contributes nothing: without it the result is the same.
\<close>

theorem merged_fields_come_from_publicinbox_keys:
  assumes "parse_stdout [] out = Inr pi"
  shows "(\<forall>name field v. lookup pi name field = Some v \<longrightarrow>
            (\<exists>pre c post k. split 0 out = pre @ c # post \<and> key_value c = Inr (k, v) \<and>
               split 46 k = [str_of ''publicinbox'', name, field] \<and>
               (\<forall>c' \<in> set post. \<forall>k' v'. key_value c' = Inr (k', v') \<longrightarrow>
                  split 46 k' \<noteq> [str_of ''publicinbox'', name, field]))) \<and>
         (\<forall>pre c post k v. split 0 out = pre @ c # post \<and> key_value c = Inr (k, v) \<and>
            (length (split 46 k) \<noteq> 3 \<or> first (split 46 k) \<noteq> Inr (str_of ''publicinbox'')) \<longrightarrow>
            parse_entries [] (pre @ post) = Inr pi)"
proof (intro conjI allI impI)
  fix name field v
  assume "lookup pi name field = Some v"
  with assms show "\<exists>pre c post k. split 0 out = pre @ c # post \<and> key_value c = Inr (k, v) \<and>
               split 46 k = [str_of ''publicinbox'', name, field] \<and>
               (\<forall>c' \<in> set post. \<forall>k' v'. key_value c' = Inr (k', v') \<longrightarrow>
                  split 46 k' \<noteq> [str_of ''publicinbox'', name, field])"
    unfolding parse_stdout_def
    by (rule parse_entries_origin) (simp add: lookup_empty)
next
  fix pre c post k v
  assume a: "split 0 out = pre @ c # post \<and> key_value c = Inr (k, v) \<and>
            (length (split 46 k) \<noteq> 3 \<or> first (split 46 k) \<noteq> Inr (str_of ''publicinbox''))"
  then have "\<forall>pi1. parse_entry pi1 c = Inr pi1"
    by (auto simp: parse_entry_dropped)
  then have "parse_entries [] (pre @ c # post) = parse_entries [] (pre @ post)"
    by (rule parse_entries_remove)
  with a assms show "parse_entries [] (pre @ post) = Inr pi"
    by (simp add: parse_stdout_def)
qed

theorem merged_fields_come_from_publicinbox_keys_witness:
  "parse_stdout [] sample_stdout = Inr [(str_of ''a'', [(str_of ''url'', str_of ''u2'')])] \<and>
   (\<exists>pre c post k. split 0 sample_stdout = pre @ c # post \<and>
      key_value c = Inr (k, str_of ''u2'') \<and>
      split 46 k = [str_of ''publicinbox'', str_of ''a'', str_of ''url''] \<and>
      (\<forall>c' \<in> set post. \<forall>k' v'. key_value c' = Inr (k', v') \<longrightarrow>
         split 46 k' \<noteq> [str_of ''publicinbox'', str_of ''a'', str_of ''url''])) \<and>
   parse_entries []
     [bytes_of ''publicinbox.a.url'' @ 10 # bytes_of ''u1'', [0xFF],
      bytes_of ''publicinbox.a.url'' @ 10 # bytes_of ''u2'', []] =
     Inr [(str_of ''a'', [(str_of ''url'', str_of ''u2'')])]"
proof -
  note T = merged_fields_come_from_publicinbox_keys [OF parse_sample_stdout]
  have l: "lookup [(str_of ''a'', [(str_of ''url'', str_of ''u2'')])] (str_of ''a'') (str_of ''url'')
             = Some (str_of ''u2'')"
    by (simp add: lookup_def get_def)
  from T l have A: "\<exists>pre c post k. split 0 sample_stdout = pre @ c # post \<and>
      key_value c = Inr (k, str_of ''u2'') \<and>
      split 46 k = [str_of ''publicinbox'', str_of ''a'', str_of ''url''] \<and>
      (\<forall>c' \<in> set post. \<forall>k' v'. key_value c' = Inr (k', v') \<longrightarrow>
         split 46 k' \<noteq> [str_of ''publicinbox'', str_of ''a'', str_of ''url''])"
    by blast
  have sp: "split 0 sample_stdout =
      [bytes_of ''publicinbox.a.url'' @ 10 # bytes_of ''u1'']
      @ (bytes_of ''core.bare'' @ 10 # bytes_of ''true'')
      # [[0xFF], bytes_of ''publicinbox.a.url'' @ 10 # bytes_of ''u2'', []]"
    by (simp add: split_sample_stdout sample_entries_def)
  have len: "length (split 46 (str_of ''core.bare'')) \<noteq> 3"
    by (simp add: str_of_def)
  from T sp key_value_sample_2 len
  have "parse_entries []
     ([bytes_of ''publicinbox.a.url'' @ 10 # bytes_of ''u1'']
      @ [[0xFF], bytes_of ''publicinbox.a.url'' @ 10 # bytes_of ''u2'', []]) =
     Inr [(str_of ''a'', [(str_of ''url'', str_of ''u2'')])]"
    by blast
  with parse_sample_stdout A show ?thesis by simp
qed

text \<open>
  Claim C6. Parsing raises nothing, on any output and from any mapping, and its result is
  the result of parsing the well-formed records alone: a record that does not split
  into a key half and a value half, or that does not decode, is skipped. The method
  \<^verbatim>\<open>_parse_publicinbox_config\<close> as a whole raises nothing either, and logs nothing
  about the records: at most the one error record for the exit status of the process.
\<close>

theorem parsing_skips_malformed_entries:
  "(\<exists>pi'. parse_stdout pi out = Inr pi' \<and>
          parse_entries pi (filter well_formed (split 0 out)) = Inr pi') \<and>
   (\<exists>s'. parse_publicinbox_config P s = Inr s' \<and>
          (logs s' = logs s \<or> (\<exists>rc err. logs s' = logs s @ [ErrorReadingConfig rc err])))"
proof -
  obtain s' where e: "parse_publicinbox_config P s = Inr s'"
    using parse_publicinbox_config_total by blast
  from parse_publicinbox_config_logs [OF e] e
  have "\<exists>s'. parse_publicinbox_config P s = Inr s' \<and>
          (logs s' = logs s \<or> (\<exists>rc err. logs s' = logs s @ [ErrorReadingConfig rc err]))"
    by blast
  with parse_entries_total [of pi "split 0 out"] show ?thesis
    by (simp add: parse_stdout_def parse_entries_filter)
qed

theorem parsing_skips_malformed_entries_witness:
  "(\<exists>pi'. parse_stdout [] sample_stdout = Inr pi' \<and>
      parse_entries []
        [bytes_of ''publicinbox.a.url'' @ 10 # bytes_of ''u1'',
         bytes_of ''core.bare'' @ 10 # bytes_of ''true'',
         bytes_of ''publicinbox.a.url'' @ 10 # bytes_of ''u2''] = Inr pi') \<and>
   (\<exists>s'. parse_publicinbox_config scripted
           (sample_state [] [] [] [\<lparr>returncode = 0, stdout = sample_stdout, stderr = []\<rparr>])
         = Inr s' \<and> logs s' = [])"
proof -
  note T = parsing_skips_malformed_entries
    [of "[]" sample_stdout scripted
        "sample_state [] [] [] [\<lparr>returncode = 0, stdout = sample_stdout, stderr = []\<rparr>]"]
  have "logs (sample_state [] [] [(str_of ''a'', [(str_of ''url'', str_of ''u2'')])] []
          \<lparr>trace := [(ConfigDump,
                       command_call scripted
                         (self (sample_state [] [] [] []))
                         (map str_of [''git'', ''config'', ''-z'', ''-l'', ''--includes'', ''--file'']
                            @ [str_of ''/pi/config'']) None None,
                       \<lparr>returncode = 0, stdout = sample_stdout, stderr = []\<rparr>)]\<rparr>) = []"
    by (simp add: sample_state_def)
  with T show ?thesis
    by (simp add: split_sample_stdout filter_sample_entries parse_sample_state)
qed

text \<open>
  Claim C7. Let \<^verbatim>\<open>_ensure_list_created\<close> return, having run the init command as the
  process \<open>p\<close>. If \<open>p\<close> exited non-zero, the result is \<open>False\<close>, no reload command
  was run and the cached mapping is the one the lookup before left, which is the one
  of the start unless that was empty. If \<open>p\<close> exited
  with zero, the result is \<open>True\<close>, the cached mapping has been cleared and, when a reload
  command is configured, it was run right after the init command.
\<close>

theorem init_failure_no_reload_init_success_reload:
  assumes e: "ensure_list_created P m s = Inr (created, s')"
    and i: "(Init, c, p) \<in> set (drop (length (trace s)) (trace s'))"
  shows "(returncode p \<noteq> 0 \<longrightarrow>
            \<not> created \<and>
            (\<forall>x \<in> set (drop (length (trace s)) (trace s')). fst x \<noteq> Reload) \<and>
            (\<exists>cf s1. get_publicinbox_conf P m (log (AttemptingCreate m) s) = Inr (cf, s1) \<and>
                pi_config (self s') = pi_config (self s1)) \<and>
            (pi_config (self s) \<noteq> [] \<longrightarrow> pi_config (self s') = pi_config (self s))) \<and>
         (returncode p = 0 \<longrightarrow>
            created \<and> pi_config (self s') = [] \<and>
            (reload_command (self s) \<noteq> [] \<longrightarrow>
               (\<exists>t c' p'. trace s' = t @ [(Init, c, p), (Reload, c', p')])))"
  using e
proof (cases rule: ensure_list_created_cases)
  case off
  with i show ?thesis by simp
next
  case (found cf)
  from get_publicinbox_conf_effect [OF found(1)] obtain t where
    "trace s' = trace s @ t" "\<forall>x \<in> set t. fst x = ConfigDump" by auto
  with i show ?thesis by auto
next
  case (refused s1)
  from get_publicinbox_conf_effect [OF refused(1)] obtain t where
    "trace s1 = trace s @ t" "\<forall>x \<in> set t. fst x = ConfigDump" by auto
  with i refused show ?thesis by auto
next
  case (failed s1 as)
  from get_publicinbox_conf_effect [OF failed(1)] obtain t where
    t: "trace s1 = trace s @ t" "\<forall>x \<in> set t. fst x = ConfigDump" by auto
  define r where "r = run_command P Init as None None (log PassedPreCheck (log DoesNotExistYet s1))"
  from failed t have new: "drop (length (trace s)) (trace s') =
      t @ [(Init, command_call P (self s1) as None None, fst r)]"
    by (simp add: r_def)
  with i t have p: "p = fst r" by auto
  from failed have "pi_config (self s') = pi_config (self s1)" by simp
  moreover from failed(1) have "pi_config (self s) \<noteq> [] \<longrightarrow> pi_config (self s1) = pi_config (self s)"
    by (auto simp: get_publicinbox_conf_cached)
  ultimately show ?thesis using failed p new t unfolding r_def by auto
next
  case (initialised s1 as)
  from get_publicinbox_conf_effect [OF initialised(1)] obtain t where
    t: "trace s1 = trace s @ t" "\<forall>x \<in> set t. fst x = ConfigDump" by auto
  define r where "r = run_command P Init as None None (log PassedPreCheck (log DoesNotExistYet s1))"
  have rc: "reload_command (self s1) = reload_command (self s)"
    using get_publicinbox_conf_reload_command [OF initialised(1)] by simp
  from initialised t rc have tr: "trace s' =
      trace s @ t @ [(Init, command_call P (self s1) as None None, fst r)] @
      (if reload_command (self s) = [] then []
       else [(Reload,
              command_call P ((self s1)\<lparr>pi_config := []\<rparr>)
                (shlex_split P (reload_command (self s))) None None,
              fst (run_command P Reload (shlex_split P (reload_command (self s))) None None
                     (set_pi_config [] (log (Initialised (list_name m)) (snd r)))))])"
    by (simp add: r_def trace_reload)
  with i t have cp: "c = command_call P (self s1) as None None" "p = fst r"
    by (auto split: if_splits)
  from initialised have "created" "pi_config (self s') = []" by simp_all
  moreover from initialised(2) cp have "returncode p = 0" by (simp add: r_def)
  moreover have "reload_command (self s) \<noteq> [] \<longrightarrow>
      (\<exists>t c' p'. trace s' = t @ [(Init, c, p), (Reload, c', p')])"
  proof
    assume "reload_command (self s) \<noteq> []"
    with tr cp have "trace s' = (trace s @ t) @ [(Init, c, p),
       (Reload,
              command_call P ((self s1)\<lparr>pi_config := []\<rparr>)
                (shlex_split P (reload_command (self s))) None None,
              fst (run_command P Reload (shlex_split P (reload_command (self s))) None None
                     (set_pi_config [] (log (Initialised (list_name m)) (snd r)))))]"
      by simp
    then show "\<exists>t c' p'. trace s' = t @ [(Init, c, p), (Reload, c', p')]" by blast
  qed
  ultimately show ?thesis by simp
qed

theorem init_failure_no_reload_init_success_reload_witness:
  "(\<exists>s'. ensure_list_created scripted sample_mlist
            (sample_state (str_of ''yes'') (str_of ''reload'') [(str_of ''o'', record_o)] [failing])
          = Inr (False, s') \<and>
          map fst (trace s') = [Init] \<and>
          pi_config (self s') = [(str_of ''o'', record_o)]) \<and>
   (\<exists>s'. ensure_list_created scripted sample_mlist
            (sample_state (str_of ''yes'') (str_of ''reload'') [(str_of ''o'', record_o)] [])
          = Inr (True, s') \<and>
          map fst (trace s') = [Init, Reload] \<and>
          pi_config (self s') = [])"
proof -
  let ?f = "sample_state (str_of ''yes'') (str_of ''reload'') [(str_of ''o'', record_o)] [failing]"
  let ?g = "sample_state (str_of ''yes'') (str_of ''reload'') [(str_of ''o'', record_o)] []"
  have t0: "trace ?f = []" "trace ?g = []" "reload_command (self ?g) \<noteq> []"
    by (simp_all add: sample_state_def str_of_def)
  obtain b s' where e: "ensure_list_created scripted sample_mlist ?f = Inr (b, s')"
    using ensure_list_created_total by blast
  with ensure_failing have o: "\<not> b" "map fst (trace s') = [Init]"
    "pi_config (self s') = [(str_of ''o'', record_o)]"
    by (simp_all add: outcome_def)
  then obtain c p where "trace s' = [(Init, c, p)]"
    by (cases "trace s'") auto
  with t0 have i: "(Init, c, p) \<in> set (drop (length (trace ?f)) (trace s'))" by simp
  from init_failure_no_reload_init_success_reload [OF e i] o
  have "\<forall>x \<in> set (drop (length (trace ?f)) (trace s')). fst x \<noteq> Reload" by auto
  with e o have A: "\<exists>s'. ensure_list_created scripted sample_mlist ?f = Inr (False, s') \<and>
          map fst (trace s') = [Init] \<and> pi_config (self s') = [(str_of ''o'', record_o)]"
    by auto
  obtain b2 s2 where e2: "ensure_list_created scripted sample_mlist ?g = Inr (b2, s2)"
    using ensure_list_created_total by blast
  with ensure_succeeding have o2: "b2" "map fst (trace s2) = [Init, Reload]"
    by (simp_all add: outcome_def)
  then obtain c2 p2 c3 p3 where "trace s2 = [(Init, c2, p2), (Reload, c3, p3)]"
    by (cases "trace s2"; cases "tl (trace s2)") auto
  with t0 have i2: "(Init, c2, p2) \<in> set (drop (length (trace ?g)) (trace s2))" by simp
  from init_failure_no_reload_init_success_reload [OF e2 i2] o2
  have "pi_config (self s2) = []" by auto
  with e2 o2 have "\<exists>s'. ensure_list_created scripted sample_mlist ?g = Inr (True, s') \<and>
          map fst (trace s') = [Init, Reload] \<and> pi_config (self s') = []"
    by auto
  with A show ?thesis by simp
qed

text \<open>
  Claim C8, as amended. \<^verbatim>\<open>_reload_public_inbox\<close> clears the cached mapping, with or
  without a reload command configured, and so does every list creation attempt that
  succeeds. As claimed (also after a failed attempt) the statement fails: an attempt whose
  init command exits non-zero returns before the reload, and the cache it ends with
  need not be empty.
\<close>

theorem cache_cleared_by_reload_and_successful_creation:
  "pi_config (self (reload_public_inbox P s)) = [] \<and>
   (ensure_list_created P m s = Inr (True, s') \<and>
    (\<exists>c p. (Init, c, p) \<in> set (drop (length (trace s)) (trace s'))) \<longrightarrow>
    pi_config (self s') = [])"
proof (intro conjI impI)
  show "pi_config (self (reload_public_inbox P s)) = []" by simp
next
  assume a: "ensure_list_created P m s = Inr (True, s') \<and>
    (\<exists>c p. (Init, c, p) \<in> set (drop (length (trace s)) (trace s')))"
  then have e: "ensure_list_created P m s = Inr (True, s')" by simp
  from a obtain c p where i: "(Init, c, p) \<in> set (drop (length (trace s)) (trace s'))"
    by blast
  from e show "pi_config (self s') = []"
  proof (cases rule: ensure_list_created_cases)
    case (found cf)
    from get_publicinbox_conf_effect [OF found(1)] obtain t where
      "trace s' = trace s @ t" "\<forall>x \<in> set t. fst x = ConfigDump" by auto
    with i show ?thesis by auto
  next
    case (initialised s1 as)
    then show ?thesis by simp
  qed simp_all
qed

theorem failed_creation_keeps_cache_counterexample:
  "outcome (ensure_list_created scripted sample_mlist
      (sample_state (str_of ''yes'') (str_of ''reload'') [(str_of ''o'', record_o)] [failing])) =
   Some (False, [(str_of ''o'', record_o)], [Init],
         [AttemptingCreate sample_mlist, DoesNotExistYet, PassedPreCheck,
          InitError (str_of ''l'') []]) \<and>
   [(str_of ''o'', record_o)] \<noteq> ([] :: pi_config)"
  by (simp add: ensure_failing)

theorem cache_cleared_by_reload_and_successful_creation_witness:
  "pi_config (self (reload_public_inbox scripted
      (sample_state (str_of ''yes'') [] [(str_of ''o'', record_o)] []))) = [] \<and>
   (\<exists>s'. ensure_list_created scripted sample_mlist
            (sample_state (str_of ''yes'') (str_of ''reload'') [(str_of ''o'', record_o)] [])
          = Inr (True, s') \<and> pi_config (self s') = [])"
proof -
  let ?g = "sample_state (str_of ''yes'') (str_of ''reload'') [(str_of ''o'', record_o)] []"
  have t0: "trace ?g = []" by (simp add: sample_state_def)
  obtain b2 s2 where e2: "ensure_list_created scripted sample_mlist ?g = Inr (b2, s2)"
    using ensure_list_created_total by blast
  with ensure_succeeding have o2: "b2" "map fst (trace s2) = [Init, Reload]"
    by (simp_all add: outcome_def)
  then obtain c2 p2 c3 p3 where "trace s2 = [(Init, c2, p2), (Reload, c3, p3)]"
    by (cases "trace s2"; cases "tl (trace s2)") auto
  with t0 have i2: "\<exists>c p. (Init, c, p) \<in> set (drop (length (trace ?g)) (trace s2))" by auto
  note T = cache_cleared_by_reload_and_successful_creation
    [where P = scripted and s = "sample_state (str_of ''yes'') [] [(str_of ''o'', record_o)] []"]
  note U = cache_cleared_by_reload_and_successful_creation
    [where P = scripted and s = ?g and m = sample_mlist and s' = s2]
  from U e2 o2 i2 have "pi_config (self s2) = []" by simp
  with e2 o2 T show ?thesis by auto
qed

text \<open>
  Claim C9. When \<^verbatim>\<open>_ensure_list_created\<close> succeeds, \<^verbatim>\<open>archive_message\<close> raises
  nothing and returns the permalink, which is computed before the delivery agent runs
  (computing it runs at most the configuration dump); the delivery agent is the last
  process run, and its exit status only decides which record is logged: an error
  record when it is non-zero.
\<close>

theorem archive_returns_permalink_despite_delivery_failure:
  assumes "ensure_list_created P m s = Inr (True, s1)"
  shows "\<exists>url s2 s'.
           permalink P m mg s1 = Inr (url, s2) \<and>
           archive_message P m mg s = Inr (url, s') \<and>
           (\<forall>x \<in> set (drop (length (trace s1)) (trace s2)). fst x = ConfigDump) \<and>
           (\<exists>c p. trace s' = trace s2 @ [(Deliver, c, p)] \<and>
              logs s' = logs s2 @
                [if returncode p \<noteq> 0
                 then DeliveryError (message_id mg) (returncode p) (stderr p)
                 else Archived (message_id mg) url])"
proof -
  obtain url s2 where pl: "permalink P m mg s1 = Inr (url, s2)"
    using permalink_total by blast
  from permalink_trace [OF pl] have tr:
    "\<forall>x \<in> set (drop (length (trace s1)) (trace s2)). fst x = ConfigDump" by auto
  define r where "r = run_command P Deliver
                            [str_of ''public-inbox-mda'', str_of ''--no-precheck'']
                            (Some [(str_of ''ORIGINAL_RECIPIENT'', posting_address m)])
                            (Some (as_string mg)) s2"
  define s' where "s' = log (if returncode (fst r) \<noteq> 0
                 then DeliveryError (message_id mg) (returncode (fst r)) (stderr (fst r))
                 else Archived (message_id mg) url) (snd r)"
  from assms pl have am: "archive_message P m mg s = Inr (url, s')"
    by (simp add: archive_message_def Let_def r_def s'_def)
  have "trace s' = trace s2 @ [(Deliver, command_call P (self s2)
                            [str_of ''public-inbox-mda'', str_of ''--no-precheck'']
                            (Some [(str_of ''ORIGINAL_RECIPIENT'', posting_address m)])
                            (Some (as_string mg)), fst r)]"
    by (simp add: s'_def r_def)
  moreover have "logs s' = logs s2 @
                [if returncode (fst r) \<noteq> 0
                 then DeliveryError (message_id mg) (returncode (fst r)) (stderr (fst r))
                 else Archived (message_id mg) url]"
    by (simp add: s'_def r_def)
  ultimately have "\<exists>c p. trace s' = trace s2 @ [(Deliver, c, p)] \<and>
              logs s' = logs s2 @
                [if returncode p \<noteq> 0
                 then DeliveryError (message_id mg) (returncode p) (stderr p)
                 else Archived (message_id mg) url]" by blast
  with pl am tr show ?thesis by blast
qed

theorem archive_returns_permalink_despite_delivery_failure_witness:
  "outcome (archive_message scripted sample_mlist sample_msg
      (sample_state (str_of ''yes'') [] [(str_of ''l'', record_l)] [failing])) =
   Some (Some (str_of ''http://x/list/abc@d/''), [(str_of ''l'', record_l)], [Deliver],
         [AttemptingCreate sample_mlist, DeliveryError (str_of ''<abc@d>'') 1 []]) \<and>
   (\<exists>s2. permalink scripted sample_mlist sample_msg
            (log (AttemptingCreate sample_mlist)
               (sample_state (str_of ''yes'') [] [(str_of ''l'', record_l)] [failing]))
          = Inr (Some (str_of ''http://x/list/abc@d/''), s2))"
proof -
  from archive_returns_permalink_despite_delivery_failure
    [OF ensure_found [of "[failing]"], where mg = sample_msg]
  obtain url s2 s' where
    "permalink scripted sample_mlist sample_msg
       (log (AttemptingCreate sample_mlist)
          (sample_state (str_of ''yes'') [] [(str_of ''l'', record_l)] [failing])) = Inr (url, s2)"
    "archive_message scripted sample_mlist sample_msg
       (sample_state (str_of ''yes'') [] [(str_of ''l'', record_l)] [failing]) = Inr (url, s')"
    by blast
  with archive_failing show ?thesis by (auto simp: outcome_def)
qed

text \<open>
  Claim C10. With the auto-create setting empty (the only value Python takes as false),
  \<^verbatim>\<open>archive_message\<close> returns \<open>None\<close> and leaves the state as it was: no process
  is run, the delivery agent included, whatever the cached mapping holds.
\<close>

theorem archive_without_auto_create_delivers_nothing:
  assumes "auto_create (self s) = []"
  shows "archive_message P m mg s = Inr (None, s)"
  using assms by (simp add: archive_message_def ensure_list_created_def)

theorem archive_without_auto_create_delivers_nothing_witness:
  "archive_message scripted sample_mlist sample_msg
      (sample_state [] [] [(str_of ''l'', record_l)] []) =
   Inr (None, sample_state [] [] [(str_of ''l'', record_l)] [])"
  by (rule archive_without_auto_create_delivers_nothing) (simp add: sample_state_def)

end
